theory Spec2Isabelle
  imports Main "HOL-Library.Word" "HOL-Library.Multiset" "HOL-Library.AList" "HOL-Library.Sublist"
begin

section \<open>Data model\<close>

text \<open>
  Go's \<open>int\<close> is a 64-bit two's complement integer on the platforms the program
  targets: \<open>+\<close> wraps around, and comparisons read the value with \<open>sint\<close>.
  Go strings are byte sequences, as \<open>string\<close> is here. A slice is a list; Go's \<open>nil\<close>
  slice and its empty slice are both the empty list (the program reads a slice
  only through \<open>range\<close>, \<open>len\<close> and \<open>append\<close>, which do not tell them apart).
\<close>

type_synonym go_int = "64 word"

text \<open>
  The structs of \<open>main.go\<close> (the count-mode variant declares the same ones). Record
  fields are global constants in a theory, so the fields that two structs share
  (\<open>Name\<close>, \<open>SearchWords\<close>, \<open>ExcludeDirs\<close>) carry the struct's name as a prefix in
  the second struct.
\<close>

record Repository =
  Name :: string
  Url :: string
  RepoExcludeDirs :: "string list"

record Config =
  SearchWords :: "string list"
  ExcludeDirs :: "string list"
  Repositories :: "Repository list"

record GrepResult =
  FileName :: string
  Count :: go_int

record Application =
  AppName :: string
  CountSum :: go_int
  GrepResults :: "GrepResult list"

record ResultFile =
  TotalApplications :: go_int
  ResultSearchWords :: "string list"
  TotalCountSum :: go_int
  Applications :: "Application list"

text \<open>
  What a Go function can do besides returning its value: return a non-nil \<open>error\<close>
  (\<open>Err\<close>, with its message), end the process through \<open>log.Fatal\<close> (\<open>Fatal\<close>), or
  panic on an index out of range (\<open>Panic\<close>, which ends the process too once the
  deferred calls have run).
\<close>

datatype error = Err string | Fatal string | Panic

section \<open>The standard library's \<open>strings.Split\<close>\<close>

text \<open>
  \<open>strings.Split s sep\<close> cuts \<open>s\<close> at every occurrence of \<open>sep\<close>, found from the left
  and not overlapping, and returns the pieces between them: one piece more than
  there are occurrences, so never an empty slice when \<open>sep\<close> is not empty. With
  an empty \<open>sep\<close> it returns the bytes of \<open>s\<close> one by one (the program never calls
  it so). \<open>splitFrom sep cur s\<close> scans \<open>s\<close> with \<open>cur\<close> the piece read so far.
\<close>

fun splitFrom :: "string \<Rightarrow> string \<Rightarrow> string \<Rightarrow> string list" where
  "splitFrom sep cur [] = [cur]"
| "splitFrom sep cur (c # cs) =
     (if prefix sep (c # cs)
      then cur # splitFrom sep [] (drop (length sep - 1) cs)
      else splitFrom sep (cur @ [c]) cs)"

definition strings_Split :: "string \<Rightarrow> string \<Rightarrow> string list" where
  "strings_Split s sep = (if sep = [] then map (\<lambda>c. [c]) s else splitFrom sep [] s)"

section \<open>Line mode (\<open>main.go\<close>): from a line of output to a count per file\<close>

text \<open>
  \<open>removeBasePath\<close> guards the index \<open>1\<close> with \<open>len(cleanName) >= 1\<close>. The read
  \<open>cleanName[1]\<close> of a one-element slice panics, and that is a branch here; the
  final \<open>return ""\<close> is the branch of an empty slice.
\<close>

definition removeBasePath :: "string \<Rightarrow> string \<Rightarrow> error + string" where
  "removeBasePath path basePath =
     (let cleanName = strings_Split path (basePath @ ''/'')
      in if length cleanName \<ge> 1
         then (if 1 < length cleanName then Inr (cleanName ! 1) else Inl Panic)
         else Inr '''')"

definition splitOutputLine :: "string \<Rightarrow> string \<times> string" where
  "splitOutputLine grepLine =
     (let split = strings_Split grepLine '':''
      in if length split = 2 then (split ! 0, split ! 1) else ('''', ''''))"

text \<open>
  \<open>pathCounts\<close> is a Go map from path to count: here an association list with
  distinct keys. \<open>pathCounts[k] += 1\<close> reads the zero value for a key that is
  not there yet.
\<close>

type_synonym pathCounts = "(string \<times> go_int) list"

definition increment :: "pathCounts \<Rightarrow> string \<Rightarrow> pathCounts" where
  "increment m k = AList.update k ((case map_of m k of None \<Rightarrow> 0 | Some n \<Rightarrow> n) + 1) m"

text \<open>The first loop of \<open>parseGrepOutput\<close>, over the lines of the output.\<close>

fun countLines :: "string \<Rightarrow> pathCounts \<Rightarrow> string list \<Rightarrow> error + pathCounts" where
  "countLines basePath m [] = Inr m"
| "countLines basePath m (line # rest) =
     (case splitOutputLine line of (path, searchWord) \<Rightarrow>
        if path \<noteq> '''' \<and> searchWord \<noteq> ''''
        then (case removeBasePath path basePath of
                Inl e \<Rightarrow> Inl e
              | Inr k \<Rightarrow> countLines basePath (increment m k) rest)
        else countLines basePath m rest)"

text \<open>
  Go leaves the order in which \<open>range\<close> visits a map unspecified, and randomises it.
  The order is an input of the model: \<open>rangeOrder sched xs\<close> visits \<open>xs\<close> by taking
  out, for each number of \<open>sched\<close>, the entry at that position (modulo what is
  left), and the rest in the order they stand. Every \<open>sched\<close> gives a permutation
  of \<open>xs\<close>, and every permutation comes from some \<open>sched\<close>.
\<close>

fun rangeOrder :: "nat list \<Rightarrow> 'a list \<Rightarrow> 'a list" where
  "rangeOrder sched [] = []"
| "rangeOrder [] xs = xs"
| "rangeOrder (n # sched) xs =
     (let i = n mod length xs
      in xs ! i # rangeOrder sched (take i xs @ drop (Suc i) xs))"

definition parseGrepOutput :: "nat list \<Rightarrow> string \<Rightarrow> string \<Rightarrow> error + GrepResult list" where
  "parseGrepOutput sched out basePath =
     (case countLines basePath [] (strings_Split out [CHR 10]) of
        Inl e \<Rightarrow> Inl e
      | Inr pathCounts \<Rightarrow>
          Inr (map (\<lambda>(path, count). \<lparr>FileName = path, Count = count\<rparr>)
                 (rangeOrder sched pathCounts)))"

text \<open>
  The condition under which the loop counts a line (line 180 of \<open>main.go\<close>), and
  the relative name it counts the line under.
\<close>

definition counted :: "string \<Rightarrow> bool" where
  "counted line = (case splitOutputLine line of (path, searchWord) \<Rightarrow>
     path \<noteq> '''' \<and> searchWord \<noteq> '''')"

definition relativeName :: "string \<Rightarrow> string \<Rightarrow> error + string" where
  "relativeName basePath line = removeBasePath (fst (splitOutputLine line)) basePath"

text \<open>
  The split the specification describes, for comparison: at the first colon of
  the line, the path before it and the token after it.
\<close>

definition spec_splitAtFirstColon :: "string \<Rightarrow> string \<times> string" where
  "spec_splitAtFirstColon line =
     (takeWhile (\<lambda>c. c \<noteq> CHR '':'') line, drop 1 (dropWhile (\<lambda>c. c \<noteq> CHR '':'') line))"

section \<open>Count mode (the variant with \<open>grep --count\<close>)\<close>

text \<open>
  The standard library's \<open>strconv.Atoi\<close>: an optional sign, then one or more
  decimal digits and nothing else, or a syntax error; a value outside the range of
  \<open>int\<close> is a range error. For a string with both defects Go reports the one it
  meets first and the model the syntax error; the program only logs the error.
\<close>

datatype NumError = ErrSyntax string | ErrRange string

definition isDigit :: "char \<Rightarrow> bool" where
  "isDigit c = (48 \<le> (of_char c :: int) \<and> (of_char c :: int) \<le> 57)"

definition digitsValue :: "string \<Rightarrow> int" where
  "digitsValue ds = foldl (\<lambda>n c. n * 10 + ((of_char c :: int) - 48)) 0 ds"

definition Atoi :: "string \<Rightarrow> NumError + go_int" where
  "Atoi s =
     (let neg = (s \<noteq> [] \<and> hd s = CHR ''-'');
          ds = (if s \<noteq> [] \<and> (hd s = CHR ''+'' \<or> hd s = CHR ''-'') then tl s else s)
      in if ds = [] \<or> \<not> list_all isDigit ds then Inl (ErrSyntax s)
         else if neg
           then (if digitsValue ds > 2 ^ 63 then Inl (ErrRange s)
                 else Inr (word_of_int (- digitsValue ds)))
           else (if digitsValue ds \<ge> 2 ^ 63 then Inl (ErrRange s)
                 else Inr (word_of_int (digitsValue ds))))"

definition isNoMatches :: "string \<Rightarrow> bool" where
  "isNoMatches cnt = (cnt = ''0'')"

text \<open>
  What the program does to the world, in the order it does it: the lines it logs,
  the commands it runs, the directories it creates and removes.
\<close>

datatype event =
    LogRunning "string list"
  | Exec "string list"
  | LogAtoiError NumError
  | MkTempDir
  | RemoveAll string
  | LogRemoveFailed string

text \<open>
  The loop of the count-mode \<open>parseGrepOutput\<close>, with \<open>results\<close> the slice built so
  far. \<open>grStr[0]\<close> is read first and \<open>grStr[1]\<close> only when \<open>grStr[0]\<close> is not
  empty; each read is checked against the length, as Go does. A count that
  \<open>Atoi\<close> rejects is logged and the function returns \<open>nil\<close>, the empty slice.
\<close>

fun parseCountLines :: "string \<Rightarrow> GrepResult list \<Rightarrow> string list
    \<Rightarrow> event list \<times> (error + GrepResult list)" where
  "parseCountLines pathGrepped results [] = ([], Inr results)"
| "parseCountLines pathGrepped results (res # rest) =
     (let grStr = strings_Split res '':''
      in if length grStr < 1 then ([], Inl Panic)
         else if grStr ! 0 \<noteq> ''''
         then (if length grStr < 2 then ([], Inl Panic)
               else if grStr ! 1 \<noteq> ''''
               then (if isNoMatches (grStr ! 1)
                     then parseCountLines pathGrepped results rest
                     else (case Atoi (grStr ! 1) of
                             Inl err \<Rightarrow> ([LogAtoiError err], Inr [])
                           | Inr cnt \<Rightarrow>
                              (case removeBasePath (grStr ! 0) pathGrepped of
                                 Inl e \<Rightarrow> ([], Inl e)
                               | Inr name \<Rightarrow>
                                   parseCountLines pathGrepped
                                     (results @ [\<lparr>FileName = name, Count = cnt\<rparr>]) rest)))
               else parseCountLines pathGrepped results rest)
         else parseCountLines pathGrepped results rest)"

definition parseGrepOutput_count :: "string \<Rightarrow> string
    \<Rightarrow> event list \<times> (error + GrepResult list)" where
  "parseGrepOutput_count out pathGrepped =
     parseCountLines pathGrepped [] (strings_Split out [CHR 10])"

section \<open>The search command\<close>

text \<open>
  How a command run through \<open>os/exec\<close> ends: with exit status 0 and its standard
  output, with an \<open>ExitError\<close> (the exit code, -1 for a signal, and the standard
  error text), or with another error (the command could not be started).
\<close>

datatype cmdResult = Finished string | ExitError int string | StartError string

text \<open>
  The world one analysis runs in: what \<open>ioutil.TempDir\<close> answers (an error or the
  new directory), how each command ends, what \<open>os.RemoveAll\<close> answers, and the order
  in which \<open>range\<close> visits the map of counts.
\<close>

record world =
  tempDir :: "string + string"
  execCmd :: "string list \<Rightarrow> cmdResult"
  removeAll :: "string \<Rightarrow> string option"
  mapOrder :: "nat list"

definition GrepErrorCodeNoMatches :: int where
  "GrepErrorCodeNoMatches = 1"

definition searchWordsStr :: "string list \<Rightarrow> string list" where
  "searchWordsStr searchWords = map (\<lambda>word. ''--regexp='' @ word) searchWords"

definition grepExcludeDirStr :: "string list \<Rightarrow> string list" where
  "grepExcludeDirStr excludeDirs = map (\<lambda>dir. ''--exclude-dir='' @ dir) excludeDirs"

definition grepCommand :: "string \<Rightarrow> string \<Rightarrow> string list \<Rightarrow> string list \<Rightarrow> string list" where
  "grepCommand mode path searchWords excludeDirs =
     ''grep'' # grepExcludeDirStr excludeDirs @ searchWordsStr searchWords
       @ [''--recursive'', ''--ignore-case'', mode, path]"

text \<open>
  \<open>grep\<close> of \<open>main.go\<close> (\<open>--only-matching\<close>) and of the count-mode variant
  (\<open>--count\<close>): the same handling of the command's end, and each its own parser.
\<close>

definition grep :: "world \<Rightarrow> string \<Rightarrow> string list \<Rightarrow> string list
    \<Rightarrow> event list \<times> (error + GrepResult list)" where
  "grep w path searchWords excludeDirs =
     (let cmd = grepCommand ''--only-matching'' path searchWords excludeDirs
      in case execCmd w cmd of
           ExitError code stderr \<Rightarrow>
             ([LogRunning cmd, Exec cmd],
              if code = GrepErrorCodeNoMatches then Inr []
              else Inl (Err (''unable to execute grep command: '' @ stderr)))
         | StartError msg \<Rightarrow>
             ([LogRunning cmd, Exec cmd],
              Inl (Err (''unable to execute grep command: '' @ msg)))
         | Finished grepOut \<Rightarrow>
             ([LogRunning cmd, Exec cmd], parseGrepOutput (mapOrder w) grepOut path))"

definition grep_count :: "world \<Rightarrow> string \<Rightarrow> string list \<Rightarrow> string list
    \<Rightarrow> event list \<times> (error + GrepResult list)" where
  "grep_count w path searchWords excludeDirs =
     (let cmd = grepCommand ''--count'' path searchWords excludeDirs
      in case execCmd w cmd of
           ExitError code stderr \<Rightarrow>
             ([LogRunning cmd, Exec cmd],
              if code = GrepErrorCodeNoMatches then Inr []
              else Inl (Err (''unable to execute grep command: '' @ stderr)))
         | StartError msg \<Rightarrow>
             ([LogRunning cmd, Exec cmd],
              Inl (Err (''unable to execute grep command: '' @ msg)))
         | Finished grepOut \<Rightarrow>
             (case parseGrepOutput_count grepOut path of
                (logged, r) \<Rightarrow> ([LogRunning cmd, Exec cmd] @ logged, r)))"

section \<open>Acquiring a repository and analysing it\<close>

text \<open>
  The closure \<open>removeDir\<close> that \<open>cloneRepo\<close> builds: \<open>os.RemoveAll\<close> on the directory,
  and a log line when that fails. The failure goes no further.
\<close>

definition removeDir :: "world \<Rightarrow> string \<Rightarrow> event list" where
  "removeDir w dir =
     RemoveAll dir # (case removeAll w dir of None \<Rightarrow> [] | Some e \<Rightarrow> [LogRemoveFailed e])"

text \<open>
  \<open>cloneRepo\<close> returns the directory and the closure (\<open>Some dir\<close>: the closure that
  removes \<open>dir\<close>; \<open>None\<close>: Go's \<open>nil\<close>), or the error of \<open>ioutil.TempDir\<close>. When
  \<open>git clone\<close> fails it removes the directory and ends the process with
  \<open>log.Fatal\<close>; the message kept here is the text before the error value that
  \<open>log.Fatal\<close> prints after it.
\<close>

definition cloneRepo :: "world \<Rightarrow> Repository
    \<Rightarrow> event list \<times> (error + string \<times> string option)" where
  "cloneRepo w r =
     (case tempDir w of
        Inl err \<Rightarrow> ([MkTempDir], Inl (Err err))
      | Inr dir \<Rightarrow>
          (let cmd = [''git'', ''clone'', Url r, dir]
           in case execCmd w cmd of
                Finished out \<Rightarrow> ([MkTempDir, LogRunning cmd, Exec cmd], Inr (dir, Some dir))
              | ExitError code stderr \<Rightarrow>
                  ([MkTempDir, LogRunning cmd, Exec cmd] @ removeDir w dir,
                   Inl (Fatal (''unable to git clone '' @ Name r)))
              | StartError msg \<Rightarrow>
                  ([MkTempDir, LogRunning cmd, Exec cmd] @ removeDir w dir,
                   Inl (Fatal (''unable to git clone '' @ Name r)))))"

text \<open>
  \<open>analyzeRepo\<close> is the same function in both variants, each calling its own
  \<open>grep\<close>, which is the parameter \<open>grepFn\<close> here. The deferred \<open>removeDir()\<close> runs
  when the function returns and when it panics, so its events end the trace
  whatever \<open>grepFn\<close> gives.
\<close>

definition analyzeRepoWith ::
  "(world \<Rightarrow> string \<Rightarrow> string list \<Rightarrow> string list \<Rightarrow> event list \<times> (error + GrepResult list))
    \<Rightarrow> world \<Rightarrow> Repository \<Rightarrow> string list \<Rightarrow> string list
    \<Rightarrow> event list \<times> (error + GrepResult list)" where
  "analyzeRepoWith grepFn w r searchWords excludeDirs =
     (case cloneRepo w r of
        (t, Inl err) \<Rightarrow> (t, Inl err)
      | (t, Inr (path, None)) \<Rightarrow> (t, Inr [])
      | (t, Inr (path, Some dir)) \<Rightarrow>
          (case grepFn w path searchWords excludeDirs of
             (t', Inl err) \<Rightarrow> (t @ t' @ removeDir w dir, Inl err)
           | (t', Inr result) \<Rightarrow> (t @ t' @ removeDir w dir, Inr result)))"

definition analyzeRepo :: "world \<Rightarrow> Repository \<Rightarrow> string list \<Rightarrow> string list
    \<Rightarrow> event list \<times> (error + GrepResult list)" where
  "analyzeRepo = analyzeRepoWith grep"


section \<open>The report\<close>

definition sumTotalCountForGrepResults :: "GrepResult list \<Rightarrow> go_int" where
  "sumTotalCountForGrepResults grs = foldl (\<lambda>result gr. result + Count gr) 0 grs"

definition calculateTotalCountSum :: "ResultFile \<Rightarrow> go_int" where
  "calculateTotalCountSum rf = foldl (\<lambda>result app. result + CountSum app) 0 (Applications rf)"

text \<open>
  The standard library's \<open>sort.Slice\<close> is a parameter \<open>srt\<close> of the model, taken
  with its documented contract: for a \<open>less\<close> that is a strict weak ordering the
  result is a rearrangement of the slice in which no element is \<open>less\<close> than one
  before it. Which of several equal elements comes first is not fixed.
\<close>

definition strictWeakOrdering :: "('a \<Rightarrow> 'a \<Rightarrow> bool) \<Rightarrow> bool" where
  "strictWeakOrdering lessFn =
     ((\<forall>a. \<not> lessFn a a)
      \<and> (\<forall>a b c. lessFn a b \<and> lessFn b c \<longrightarrow> lessFn a c)
      \<and> (\<forall>a b c. \<not> lessFn a b \<and> \<not> lessFn b c \<longrightarrow> \<not> lessFn a c))"

definition sortSliceContract ::
  "(('a \<Rightarrow> 'a \<Rightarrow> bool) \<Rightarrow> 'a list \<Rightarrow> 'a list) \<Rightarrow> bool" where
  "sortSliceContract srt =
     (\<forall>lessFn xs. strictWeakOrdering lessFn \<longrightarrow>
        mset (srt lessFn xs) = mset xs \<and> sorted_wrt (\<lambda>a b. \<not> lessFn b a) (srt lessFn xs))"

text \<open>One sort that meets the contract, to run the model on concrete inputs.\<close>

fun insertBy :: "('a \<Rightarrow> 'a \<Rightarrow> bool) \<Rightarrow> 'a \<Rightarrow> 'a list \<Rightarrow> 'a list" where
  "insertBy lessFn x [] = [x]"
| "insertBy lessFn x (y # ys) =
     (if lessFn y x then y # insertBy lessFn x ys else x # y # ys)"

fun insertionSort :: "('a \<Rightarrow> 'a \<Rightarrow> bool) \<Rightarrow> 'a list \<Rightarrow> 'a list" where
  "insertionSort lessFn [] = []"
| "insertionSort lessFn (x # xs) = insertBy lessFn x (insertionSort lessFn xs)"

definition sortOnAppCountSumDesc ::
  "((Application \<Rightarrow> Application \<Rightarrow> bool) \<Rightarrow> Application list \<Rightarrow> Application list)
    \<Rightarrow> ResultFile \<Rightarrow> ResultFile" where
  "sortOnAppCountSumDesc srt result =
     result\<lparr>Applications :=
       srt (\<lambda>a b. sint (CountSum a) > sint (CountSum b)) (Applications result)\<rparr>"

text \<open>
  The concurrent part of \<open>main\<close>. Every goroutine analyses its repository and
  writes the slot of its own index; \<open>wg.Wait()\<close> returns once all have written.
  The goroutines share nothing but the slot array, so a run is given by the order
  in which they finish: \<open>completionOrder sched n\<close>, a rearrangement of the
  indices \<open>0..<n\<close> for every \<open>sched\<close>. \<open>analysis index\<close> is what \<open>analyzeRepo\<close>
  gives for the repository at \<open>index\<close>. An error there ends the process through
  \<open>log.Fatalf\<close>, and so does a panic: no report is written then.
\<close>

definition completionOrder :: "nat list \<Rightarrow> nat \<Rightarrow> nat list" where
  "completionOrder sched n = rangeOrder sched [0..<n]"

fun fillSlots :: "(nat \<Rightarrow> error + GrepResult list) \<Rightarrow> Repository list
    \<Rightarrow> Application list \<Rightarrow> nat list \<Rightarrow> error + Application list" where
  "fillSlots analysis repos apps [] = Inr apps"
| "fillSlots analysis repos apps (index # rest) =
     (case analysis index of
        Inl (Err msg) \<Rightarrow>
          Inl (Fatal (''failed on repo '' @ [CHR 39] @ Name (repos ! index) @ [CHR 39] @ '': '' @ msg))
      | Inl (Fatal msg) \<Rightarrow> Inl (Fatal msg)
      | Inl Panic \<Rightarrow> Inl Panic
      | Inr result \<Rightarrow>
          fillSlots analysis repos
            (apps[index := \<lparr>AppName = Name (repos ! index),
                            CountSum = sumTotalCountForGrepResults result,
                            GrepResults = result\<rparr>])
            rest)"

definition zeroApplication :: Application where
  "zeroApplication = \<lparr>AppName = '''', CountSum = 0, GrepResults = []\<rparr>"

text \<open>
  Lines 56 to 79 of \<open>main\<close>, the same in both variants: the slots, the goroutines,
  the total. \<open>worlds index\<close> is the world the goroutine of \<open>index\<close> runs in. Each
  goroutine passes \<open>append(cfg.ExcludeDirs, ...)\<close>, here the concatenation of the
  two lists; the list only enters the command line, and the properties of the
  report below hold whatever the commands answer.
\<close>

definition gatherResults ::
  "(world \<Rightarrow> Repository \<Rightarrow> string list \<Rightarrow> string list \<Rightarrow> event list \<times> (error + GrepResult list))
    \<Rightarrow> nat list \<Rightarrow> (nat \<Rightarrow> world) \<Rightarrow> Config \<Rightarrow> error + ResultFile" where
  "gatherResults analyze sched worlds cfg =
     (let n = length (Repositories cfg);
          results = \<lparr>TotalApplications = word_of_nat n,
                     ResultSearchWords = SearchWords cfg,
                     TotalCountSum = 0,
                     Applications = replicate n zeroApplication\<rparr>
      in case fillSlots
                (\<lambda>index. snd (analyze (worlds index) (Repositories cfg ! index) (SearchWords cfg)
                   (ExcludeDirs cfg @ RepoExcludeDirs (Repositories cfg ! index))))
                (Repositories cfg) (Applications results) (completionOrder sched n) of
           Inl err \<Rightarrow> Inl err
         | Inr apps \<Rightarrow>
             (let filled = results\<lparr>Applications := apps\<rparr>
              in Inr (filled\<lparr>TotalCountSum := calculateTotalCountSum filled\<rparr>)))"

text \<open>
  \<open>main\<close> of \<open>main.go\<close> and of the count-mode variant. \<open>cfgFile\<close> is what \<open>loadConfig\<close>
  gives and \<open>writeErr\<close> what \<open>writeResult\<close> gives; the value returned is the report
  as \<open>writeResult\<close> received and wrote it. The count-mode variant writes the slots
  as they stand; \<open>main.go\<close> sorts them first.
\<close>

definition main_go ::
  "((Application \<Rightarrow> Application \<Rightarrow> bool) \<Rightarrow> Application list \<Rightarrow> Application list)
    \<Rightarrow> nat list \<Rightarrow> (nat \<Rightarrow> world) \<Rightarrow> string + Config \<Rightarrow> string option
    \<Rightarrow> error + ResultFile" where
  "main_go srt sched worlds cfgFile writeErr =
     (case cfgFile of
        Inl err \<Rightarrow> Inl (Fatal err)
      | Inr cfg \<Rightarrow>
          (case gatherResults analyzeRepo sched worlds cfg of
             Inl err \<Rightarrow> Inl err
           | Inr results \<Rightarrow>
               (case writeErr of
                  Some err \<Rightarrow> Inl (Fatal (''unable to save result: %w'' @ err))
                | None \<Rightarrow> Inr (sortOnAppCountSumDesc srt results))))"


section \<open>Notions the properties are stated with\<close>


text \<open>
  A world for concrete runs: \<open>ioutil.TempDir\<close> gives \<open>dir\<close>, \<open>git clone\<close> ends as
  \<open>cloned\<close>, \<open>grep\<close> ends as \<open>searched\<close>, \<open>os.RemoveAll\<close> succeeds and the map is
  visited in the order of its keys' first appearance.
\<close>

definition worldOf :: "string \<Rightarrow> cmdResult \<Rightarrow> cmdResult \<Rightarrow> world" where
  "worldOf dir cloned searched =
     \<lparr>tempDir = Inr dir,
      execCmd = (\<lambda>cmd. if hd cmd = ''git'' then cloned else searched),
      removeAll = (\<lambda>d. None),
      mapOrder = []\<rparr>"

text \<open>
  What reading \<open>pathCounts[k]\<close> gives: the count stored under \<open>k\<close>, or the zero
  value. \<open>countedUnder basePath name lines\<close> is the number of lines that the loop
  counts under \<open>name\<close>, with the name as the code's own \<open>removeBasePath\<close> gives it;
  it describes the loop and stands in no statement about the specification.
\<close>

definition countOf :: "pathCounts \<Rightarrow> string \<Rightarrow> go_int" where
  "countOf m k = (case map_of m k of None \<Rightarrow> 0 | Some n \<Rightarrow> n)"

definition countedUnder :: "string \<Rightarrow> string \<Rightarrow> string list \<Rightarrow> nat" where
  "countedUnder basePath name lines =
     length (filter (\<lambda>line. counted line \<and> relativeName basePath line = Inr name) lines)"

text \<open>
  The specification's side, written from its words and not from the code. A line
  has the form \<open>path:token\<close> with both parts non-empty when the split at its first
  colon gives two non-empty parts. The relative path of a path is the path with
  its prefix \<open>basePath/\<close> removed, and the empty string for a path without that
  prefix. \<open>spec_occurrences basePath P lines\<close> is the number of lines of that form
  whose relative path is \<open>P\<close>.
\<close>

definition spec_pathTokenLine :: "string \<Rightarrow> bool" where
  "spec_pathTokenLine line =
     (fst (spec_splitAtFirstColon line) \<noteq> '''' \<and> snd (spec_splitAtFirstColon line) \<noteq> '''')"

definition spec_relativePath :: "string \<Rightarrow> string \<Rightarrow> string" where
  "spec_relativePath basePath path =
     (if prefix (basePath @ ''/'') path then drop (length (basePath @ ''/'')) path else '''')"

definition spec_occurrences :: "string \<Rightarrow> string \<Rightarrow> string list \<Rightarrow> nat" where
  "spec_occurrences basePath P lines =
     length (filter (\<lambda>line. spec_pathTokenLine line
        \<and> spec_relativePath basePath (fst (spec_splitAtFirstColon line)) = P) lines)"

text \<open>
  The two conditions of the amended statement. A line of the form \<open>path:token\<close>
  has one colon only. A path lies under \<open>basePath\<close> once when it starts with
  \<open>basePath/\<close> and \<open>basePath/\<close> does not occur in the rest of it;
  \<open>occursIn sep s\<close> says that \<open>sep\<close> occurs somewhere in \<open>s\<close>.
\<close>

fun occursIn :: "string \<Rightarrow> string \<Rightarrow> bool" where
  "occursIn sep [] = (sep = [])"
| "occursIn sep (c # cs) = (prefix sep (c # cs) \<or> occursIn sep cs)"

definition underBasePathOnce :: "string \<Rightarrow> string \<Rightarrow> bool" where
  "underBasePathOnce basePath path =
     (prefix (basePath @ ''/'') path
      \<and> \<not> occursIn (basePath @ ''/'') (drop (length (basePath @ ''/'')) path))"

definition oneColonLine :: "string \<Rightarrow> bool" where
  "oneColonLine line = (spec_pathTokenLine line \<and> count_list line (CHR '':'') = 1)"

definition oneColonOccurrences :: "string \<Rightarrow> string \<Rightarrow> string list \<Rightarrow> nat" where
  "oneColonOccurrences basePath P lines =
     length (filter (\<lambda>line. oneColonLine line
        \<and> spec_relativePath basePath (fst (spec_splitAtFirstColon line)) = P) lines)"

text \<open>The output that \<open>TestParseGrepOutput\<close> of \<open>main_test.go\<close> parses.\<close>

definition testInput :: string where
  "testInput = ''repository-words-grepper/config.json:fell'' @ [CHR 10]
     @ ''repository-words-grepper/go.mod:fell'' @ [CHR 10]
     @ ''repository-words-grepper/results.json:fell'' @ [CHR 10]
     @ ''repository-words-grepper/results.json:fell'' @ [CHR 10]
     @ ''repository-words-grepper/results.json:FELL'' @ [CHR 10]
     @ ''repository-words-grepper/test.txt:FELL''"

text \<open>
  The slot a goroutine writes for the repository at \<open>index\<close> once its analysis
  has returned a result.
\<close>

definition filledSlot :: "(nat \<Rightarrow> error + GrepResult list) \<Rightarrow> Repository list \<Rightarrow> nat \<Rightarrow> Application" where
  "filledSlot analysis repos index =
     (case analysis index of
        Inr result \<Rightarrow> \<lparr>AppName = Name (repos ! index),
                        CountSum = sumTotalCountForGrepResults result,
                        GrepResults = result\<rparr>
      | Inl err \<Rightarrow> zeroApplication)"

text \<open>
  A configuration with two repositories and a world for each: the search finds
  two matches in the first and four in the second.
\<close>

definition exampleConfig :: Config where
  "exampleConfig =
     \<lparr>SearchWords = [''fell''],
      ExcludeDirs = [''.git''],
      Repositories = [\<lparr>Name = ''first'', Url = ''https://example.org/first.git'', RepoExcludeDirs = []\<rparr>,
                      \<lparr>Name = ''second'', Url = ''https://example.org/second.git'', RepoExcludeDirs = [''vendor'']\<rparr>]\<rparr>"

definition exampleWorlds :: "nat \<Rightarrow> world" where
  "exampleWorlds index =
     (if index = 0
      then worldOf ''/tmp/clone0'' (Finished '''')
             (Finished (''/tmp/clone0/a.txt:fell'' @ [CHR 10] @ ''/tmp/clone0/a.txt:Fell'' @ [CHR 10]))
      else worldOf ''/tmp/clone1'' (Finished '''')
             (Finished (''/tmp/clone1/b.txt:fell'' @ [CHR 10] @ ''/tmp/clone1/c.txt:fell'' @ [CHR 10]
                @ ''/tmp/clone1/b.txt:FELL'' @ [CHR 10] @ ''/tmp/clone1/b.txt:fell'' @ [CHR 10])))"


text \<open>
  The reports the two variants write for \<open>exampleConfig\<close>: \<open>main.go\<close> with the second
  repository first, the count-mode variant in the order of the configuration.
\<close>

definition exampleReport :: ResultFile where
  "exampleReport =
     \<lparr>TotalApplications = 2,
      ResultSearchWords = [''fell''],
      TotalCountSum = 6,
      Applications =
        [\<lparr>AppName = ''second'', CountSum = 4,
          GrepResults = [\<lparr>FileName = ''b.txt'', Count = 3\<rparr>, \<lparr>FileName = ''c.txt'', Count = 1\<rparr>]\<rparr>,
         \<lparr>AppName = ''first'', CountSum = 2,
          GrepResults = [\<lparr>FileName = ''a.txt'', Count = 2\<rparr>]\<rparr>]\<rparr>"


section \<open>Properties of \<open>strings.Split\<close> on a one-byte separator\<close>

lemma splitFrom_nonempty: "splitFrom sep cur s \<noteq> []"
  by (induction sep cur s rule: splitFrom.induct) auto

lemma splitFrom_char_absent:
  "c \<notin> set s \<Longrightarrow> splitFrom [c] cur s = [cur @ s]"
  by (induction s arbitrary: cur) auto

lemma splitFrom_char_first:
  "c \<notin> set p \<Longrightarrow> splitFrom [c] cur (p @ c # t) = (cur @ p) # splitFrom [c] [] t"
  by (induction p arbitrary: cur) auto

lemma length_splitFrom_char:
  "length (splitFrom [c] cur s) = Suc (count_list s c)"
  by (induction s arbitrary: cur) auto

lemma count_one_decomp:
  "count_list s c = 1 \<Longrightarrow> \<exists>p t. s = p @ c # t \<and> c \<notin> set p \<and> c \<notin> set t"
proof (induction s)
  case Nil
  then show ?case by simp
next
  case (Cons x s)
  show ?case
  proof (cases "x = c")
    case True
    with Cons.prems have "count_list s c = 0" by simp
    then have "c \<notin> set s" by (simp add: count_list_0_iff)
    with True show ?thesis by (intro exI[of _ "[]"] exI[of _ s]) simp
  next
    case False
    with Cons obtain p t where "s = p @ c # t" "c \<notin> set p" "c \<notin> set t" by auto
    with False show ?thesis by (intro exI[of _ "x # p"] exI[of _ t]) simp
  qed
qed

lemma split_colon_two:
  "CHR '':'' \<notin> set p \<Longrightarrow> CHR '':'' \<notin> set t \<Longrightarrow>
     strings_Split (p @ CHR '':'' # t) '':'' = [p, t]"
  by (simp add: strings_Split_def splitFrom_char_first splitFrom_char_absent)

lemma spec_split_decomp:
  "CHR '':'' \<notin> set p \<Longrightarrow> spec_splitAtFirstColon (p @ CHR '':'' # t) = (p, t)"
  by (induction p) (auto simp: spec_splitAtFirstColon_def)

lemma counted_decomp:
  "CHR '':'' \<notin> set p \<Longrightarrow> CHR '':'' \<notin> set t \<Longrightarrow>
     counted (p @ CHR '':'' # t) \<longleftrightarrow> p \<noteq> [] \<and> t \<noteq> []"
proof -
  assume "CHR '':'' \<notin> set p" and "CHR '':'' \<notin> set t"
  then have "strings_Split (p @ CHR '':'' # t) '':'' = [p, t]"
    by (rule split_colon_two)
  then show ?thesis
    by (simp add: counted_def splitOutputLine_def)
qed

lemma counted_iff:
  "counted line \<longleftrightarrow>
     count_list line (CHR '':'') = 1
     \<and> fst (spec_splitAtFirstColon line) \<noteq> ''''
     \<and> snd (spec_splitAtFirstColon line) \<noteq> ''''"
proof (cases "count_list line (CHR '':'') = 1")
  case True
  from count_one_decomp [OF True]
  obtain p t where d: "line = p @ CHR '':'' # t"
      and p: "CHR '':'' \<notin> set p" and t: "CHR '':'' \<notin> set t"
    by (elim exE conjE)
  have c: "counted line \<longleftrightarrow> p \<noteq> [] \<and> t \<noteq> []"
    unfolding d by (rule counted_decomp [OF p t])
  have s: "spec_splitAtFirstColon line = (p, t)"
    unfolding d by (rule spec_split_decomp [OF p])
  show ?thesis
    unfolding c s using True by simp
next
  case False
  have "length (strings_Split line '':'') = Suc (count_list line (CHR '':''))"
    by (simp add: strings_Split_def length_splitFrom_char)
  with False have "length (strings_Split line '':'') \<noteq> 2"
    by simp
  then have "\<not> counted line"
    by (simp only: counted_def splitOutputLine_def Let_def) simp
  with False show ?thesis
    by simp
qed

lemma countLines_step:
  "countLines basePath m (line # rest) =
     (if counted line
      then (case relativeName basePath line of
              Inl e \<Rightarrow> Inl e
            | Inr k \<Rightarrow> countLines basePath (increment m k) rest)
      else countLines basePath m rest)"
  by (simp add: counted_def relativeName_def split: prod.splits)

section \<open>Line mode: which lines are counted\<close>

text \<open>
  A path in which \<open>basePath/\<close> does not occur is returned whole by \<open>strings.Split\<close>,
  as the one piece, and \<open>removeBasePath\<close> panics on it.
\<close>

lemma splitFrom_absent:
  "sep \<noteq> [] \<Longrightarrow> \<forall>pre post. s \<noteq> pre @ sep @ post \<Longrightarrow> splitFrom sep cur s = [cur @ s]"
proof (induction s arbitrary: cur)
  case Nil
  show ?case by simp
next
  case (Cons c cs)
  have np: "\<not> prefix sep (c # cs)"
  proof
    assume "prefix sep (c # cs)"
    then obtain post where "c # cs = sep @ post"
      by (auto simp: prefix_def)
    then have "c # cs = [] @ sep @ post" by simp
    with Cons.prems(2) show False by blast
  qed
  have "\<forall>pre post. cs \<noteq> pre @ sep @ post"
  proof (intro allI notI)
    fix pre post
    assume "cs = pre @ sep @ post"
    then have "c # cs = (c # pre) @ sep @ post" by simp
    with Cons.prems(2) show False by blast
  qed
  from Cons.IH [OF Cons.prems(1) this, of "cur @ [c]"] np show ?case
    by simp
qed

lemma removeBasePath_absent_panics:
  "\<forall>pre post. path \<noteq> pre @ basePath @ ''/'' @ post \<Longrightarrow> removeBasePath path basePath = Inl Panic"
proof -
  assume a: "\<forall>pre post. path \<noteq> pre @ basePath @ ''/'' @ post"
  have "splitFrom (basePath @ ''/'') [] path = [[] @ path]"
    by (rule splitFrom_absent) (use a in simp_all)
  then show ?thesis
    by (simp add: removeBasePath_def strings_Split_def)
qed

text \<open>
  C1. The claim: a path that does not contain \<open>basePath/\<close> gets the empty relative
  name, and \<open>parseGrepOutput\<close> returns normally. On the output
  \<open>other/x.txt:fell\<close> with base path \<open>repo\<close> the function panics instead:
  \<open>strings.Split\<close> returns the one piece \<open>other/x.txt\<close>, the guard
  \<open>len(cleanName) >= 1\<close> holds and \<open>cleanName[1]\<close> is out of range. This holds
  for every order of the map.
\<close>

theorem parseGrepOutput_outside_basePath_panics:
  "parseGrepOutput sched ''other/x.txt:fell'' ''repo'' = Inl Panic"
  by (simp add: parseGrepOutput_def strings_Split_def splitOutputLine_def removeBasePath_def)



section \<open>Count mode: a line without a colon\<close>

text \<open>
  C10. The count-mode parser is not total: on the output \<open>abc\<close>, one line with no
  colon, \<open>strings.Split\<close> gives one piece, \<open>grStr[0]\<close> is not empty and the read of
  \<open>grStr[1]\<close> is out of range, so the function panics.
\<close>

theorem parseGrepOutput_count_no_colon_panics:
  "parseGrepOutput_count ''abc'' pathGrepped = ([], Inl Panic)"
  by (simp add: parseGrepOutput_count_def strings_Split_def)

section \<open>Line mode: one result per file, with the number of its lines\<close>

lemma mset_rangeOrder: "mset (rangeOrder sched xs) = mset xs"
proof (induction sched xs rule: rangeOrder.induct)
  case (3 n sched v va)
  let ?xs = "v # va"
  let ?i = "n mod length ?xs"
  have i: "?i < length ?xs" by simp
  have "mset ?xs = mset (take ?i ?xs @ ?xs ! ?i # drop (Suc ?i) ?xs)"
    using id_take_nth_drop [OF i] by simp
  then show ?case
    using 3 by (simp add: Let_def)
qed simp_all

lemma relativeName_cases:
  "relativeName basePath line \<noteq> Inl Panic \<Longrightarrow> \<exists>k. relativeName basePath line = Inr k"
  by (simp add: relativeName_def removeBasePath_def Let_def split: if_splits)

lemma countOf_increment:
  "countOf (increment m k) P = (if P = k then countOf m k + 1 else countOf m P)"
  by (simp add: countOf_def increment_def update_conv')

lemma keys_increment:
  "fst ` set (increment m k) = insert k (fst ` set m)"
  by (simp add: increment_def dom_update)

lemma distinct_increment:
  "distinct (map fst m) \<Longrightarrow> distinct (map fst (increment m k))"
  by (simp add: increment_def distinct_update)

lemma countedUnder_Cons:
  "countedUnder basePath P (line # rest) =
     (if counted line \<and> relativeName basePath line = Inr P then 1 else 0)
       + countedUnder basePath P rest"
  by (simp add: countedUnder_def)

lemma countLines_total:
  "\<forall>line \<in> set lines. counted line \<longrightarrow> relativeName basePath line \<noteq> Inl Panic
   \<Longrightarrow> \<exists>m'. countLines basePath m lines = Inr m'"
proof (induction lines arbitrary: m)
  case Nil
  show ?case by simp
next
  case (Cons line rest)
  show ?case
  proof (cases "counted line")
    case True
    with Cons.prems obtain k where "relativeName basePath line = Inr k"
      using relativeName_cases [of basePath line] by auto
    with True Cons show ?thesis
      by (simp add: countLines_step del: countLines.simps)
  next
    case False
    with Cons show ?thesis
      by (simp add: countLines_step del: countLines.simps)
  qed
qed

lemma countLines_counts:
  "countLines basePath m lines = Inr m' \<Longrightarrow>
     (distinct (map fst m) \<longrightarrow> distinct (map fst m'))
     \<and> fst ` set m' = fst ` set m \<union> {P. 0 < countedUnder basePath P lines}
     \<and> (\<forall>P. countOf m' P = countOf m P + word_of_nat (countedUnder basePath P lines))"
proof (induction lines arbitrary: m)
  case Nil
  then show ?case by (simp add: countedUnder_def)
next
  case (Cons line rest)
  show ?case
  proof (cases "counted line")
    case False
    with Cons.prems have "countLines basePath m rest = Inr m'"
      by (simp add: countLines_step del: countLines.simps)
    from Cons.IH [OF this] False show ?thesis
      by (simp add: countedUnder_Cons)
  next
    case True
    with Cons.prems obtain k where k: "relativeName basePath line = Inr k"
      and r: "countLines basePath (increment m k) rest = Inr m'"
      by (auto simp: countLines_step simp del: countLines.simps split: sum.splits)
    note ih = Cons.IH [OF r]
    have occ: "\<And>P. countedUnder basePath P (line # rest) =
        (if P = k then 1 else 0) + countedUnder basePath P rest"
      using True k by (auto simp: countedUnder_Cons)
    have d: "distinct (map fst m) \<longrightarrow> distinct (map fst m')"
      using ih distinct_increment by blast
    have keys: "fst ` set m' = fst ` set m \<union> {P. 0 < countedUnder basePath P (line # rest)}"
      using ih by (auto simp: keys_increment occ)
    have cnt: "\<forall>P. countOf m' P = countOf m P + word_of_nat (countedUnder basePath P (line # rest))"
      using ih by (simp add: countOf_increment occ)
    from d keys cnt show ?thesis by simp
  qed
qed

lemma filter_distinct_key:
  "distinct (map fst ys) \<Longrightarrow> (P, v) \<in> set ys \<Longrightarrow> filter (\<lambda>e. fst e = P) ys = [(P, v)]"
proof (induction ys)
  case Nil
  then show ?case by simp
next
  case (Cons y ys)
  show ?case
  proof (cases "fst y = P")
    case True
    with Cons.prems have "P \<notin> fst ` set ys" by auto
    then have "filter (\<lambda>e. fst e = P) ys = []"
      by (auto simp: filter_empty_conv)
    moreover from True Cons.prems \<open>P \<notin> fst ` set ys\<close> have "y = (P, v)"
      by (cases y) force
    ultimately show ?thesis by simp
  next
    case False
    with Cons show ?thesis by auto
  qed
qed

lemma sint_small_count: "k < 2 ^ 63 \<Longrightarrow> sint (word_of_nat k :: go_int) = int k"
  by (simp add: signed_of_nat signed_take_bit_int_eq_self)

text \<open>
  What the loop and the walk over the map give together, in the code's own terms:
  when no counted line makes \<open>removeBasePath\<close> panic, a name that the loop counts
  \<open>k\<close> lines under, \<open>k\<close> at least one, has exactly one result, with the count \<open>k\<close>.
\<close>

lemma parseGrepOutput_one_result_per_name:
  assumes inside: "\<forall>line \<in> set (strings_Split out [CHR 10]).
      counted line \<longrightarrow> relativeName basePath line \<noteq> Inl Panic"
    and k: "countedUnder basePath P (strings_Split out [CHR 10]) = k"
    and pos: "0 < k"
  shows "\<exists>results. parseGrepOutput sched out basePath = Inr results
      \<and> filter (\<lambda>r. FileName r = P) results = [\<lparr>FileName = P, Count = word_of_nat k\<rparr>]
      \<and> distinct (map FileName results)
      \<and> (k < 2 ^ 63 \<longrightarrow> sint (word_of_nat k :: go_int) = int k)"
proof -
  let ?lines = "strings_Split out [CHR 10]"
  let ?mk = "\<lambda>(path, count). \<lparr>FileName = path, Count = count\<rparr>"
  from countLines_total [OF inside, of "[]"] obtain m where m: "countLines basePath [] ?lines = Inr m"
    by (elim exE)
  from countLines_counts [OF m]
  have d: "distinct (map fst m)"
    and keys: "fst ` set m = {Q. 0 < countedUnder basePath Q ?lines}"
    and cnt: "countOf m P = word_of_nat k"
    using k by (simp_all add: countOf_def)
  let ?ys = "rangeOrder sched m"
  have ms: "mset ?ys = mset m" by (rule mset_rangeOrder)
  then have "mset (map fst ?ys) = mset (map fst m)" by simp
  then have dy: "distinct (map fst ?ys)"
    using d by (metis distinct_count_atmost_1 set_mset_mset)
  have "P \<in> fst ` set m" using keys k pos by simp
  then obtain v where v: "(P, v) \<in> set m" by auto
  with d have "map_of m P = Some v" by simp
  with cnt have "v = word_of_nat k" by (simp add: countOf_def)
  with v have "(P, word_of_nat k) \<in> set ?ys"
    using ms by (metis set_mset_mset)
  from filter_distinct_key [OF dy this]
  have f: "filter (\<lambda>e. fst e = P) ?ys = [(P, word_of_nat k)]" .
  have res: "parseGrepOutput sched out basePath = Inr (map ?mk ?ys)"
    by (simp add: parseGrepOutput_def m)
  have "filter (\<lambda>r. FileName r = P) (map ?mk ?ys) = map ?mk (filter (\<lambda>e. fst e = P) ?ys)"
    by (simp add: filter_map comp_def case_prod_beta)
  then have f': "filter (\<lambda>r. FileName r = P) (map ?mk ?ys) = [\<lparr>FileName = P, Count = word_of_nat k\<rparr>]"
    by (simp add: f)
  have e: "map FileName (map ?mk ?ys) = map fst ?ys"
    by (simp add: comp_def case_prod_beta)
  have dn: "distinct (map FileName (map ?mk ?ys))"
    unfolding e by (rule dy)
  show ?thesis
    using res f' dn sint_small_count [of k] by simp
qed

lemma testInput_lines:
  "strings_Split testInput [CHR 10] =
     [''repository-words-grepper/config.json:fell'',
      ''repository-words-grepper/go.mod:fell'',
      ''repository-words-grepper/results.json:fell'',
      ''repository-words-grepper/results.json:fell'',
      ''repository-words-grepper/results.json:FELL'',
      ''repository-words-grepper/test.txt:FELL'']"
  by code_simp

text \<open>
  The code's names and the specification's relative paths agree on a line with one
  colon whose path lies under \<open>basePath\<close> once.
\<close>

lemma splitFrom_not_occursIn:
  "sep \<noteq> [] \<Longrightarrow> \<not> occursIn sep s \<Longrightarrow> splitFrom sep cur s = [cur @ s]"
  by (induction s arbitrary: cur) auto

lemma splitFrom_at_prefix:
  "sep \<noteq> [] \<Longrightarrow> splitFrom sep cur (sep @ rest) = cur # splitFrom sep [] rest"
  by (cases sep) auto

lemma removeBasePath_under_once:
  assumes "underBasePathOnce basePath path"
  shows "removeBasePath path basePath = Inr (spec_relativePath basePath path)"
proof -
  let ?sep = "basePath @ ''/''"
  let ?rest = "drop (length ?sep) path"
  from assms have p: "prefix ?sep path" and n: "\<not> occursIn ?sep ?rest"
    by (simp_all add: underBasePathOnce_def)
  from p have path: "path = ?sep @ ?rest"
    by (metis append_eq_conv_conj prefix_def)
  have "splitFrom ?sep [] path = splitFrom ?sep [] (?sep @ ?rest)"
    using path by simp
  also have "\<dots> = [] # splitFrom ?sep [] ?rest"
    by (rule splitFrom_at_prefix) simp
  also have "\<dots> = [[], ?rest]"
    using splitFrom_not_occursIn [OF _ n, of "[]"] by simp
  finally have "strings_Split path ?sep = [[], ?rest]"
    by (simp add: strings_Split_def)
  then show ?thesis
    using p by (simp add: removeBasePath_def spec_relativePath_def)
qed

lemma counted_oneColonLine: "counted line \<longleftrightarrow> oneColonLine line"
  using counted_iff [of line] by (simp add: oneColonLine_def spec_pathTokenLine_def conj_ac)

lemma counted_split_agrees:
  assumes "counted line"
  shows "splitOutputLine line = spec_splitAtFirstColon line"
proof -
  from assms have "count_list line (CHR '':'') = 1"
    using counted_iff [of line] by simp
  from count_one_decomp [OF this]
  obtain p t where d: "line = p @ CHR '':'' # t"
      and p: "CHR '':'' \<notin> set p" and t: "CHR '':'' \<notin> set t"
    by (elim exE conjE)
  have "splitOutputLine line = (p, t)"
    unfolding d using split_colon_two [OF p t] by (simp add: splitOutputLine_def)
  moreover have "spec_splitAtFirstColon line = (p, t)"
    unfolding d by (rule spec_split_decomp [OF p])
  ultimately show ?thesis by simp
qed

lemma relativeName_under_once:
  assumes "oneColonLine line"
    and "underBasePathOnce basePath (fst (spec_splitAtFirstColon line))"
  shows "relativeName basePath line
    = Inr (spec_relativePath basePath (fst (spec_splitAtFirstColon line)))"
proof -
  from assms(1) have "counted line" by (simp add: counted_oneColonLine)
  then have "fst (splitOutputLine line) = fst (spec_splitAtFirstColon line)"
    by (simp add: counted_split_agrees)
  then show ?thesis
    using removeBasePath_under_once [OF assms(2)] by (simp add: relativeName_def)
qed

lemma countedUnder_oneColonOccurrences:
  assumes "\<forall>line \<in> set lines. oneColonLine line \<longrightarrow>
      underBasePathOnce basePath (fst (spec_splitAtFirstColon line))"
  shows "countedUnder basePath P lines = oneColonOccurrences basePath P lines"
proof -
  have "filter (\<lambda>line. counted line \<and> relativeName basePath line = Inr P) lines
      = filter (\<lambda>line. oneColonLine line
          \<and> spec_relativePath basePath (fst (spec_splitAtFirstColon line)) = P) lines"
  proof (rule filter_cong [OF refl])
    fix line
    assume "line \<in> set lines"
    with assms have u: "oneColonLine line \<longrightarrow>
        underBasePathOnce basePath (fst (spec_splitAtFirstColon line))"
      by simp
    show "(counted line \<and> relativeName basePath line = Inr P)
        = (oneColonLine line \<and> spec_relativePath basePath (fst (spec_splitAtFirstColon line)) = P)"
    proof (cases "oneColonLine line")
      case True
      with u relativeName_under_once [of line basePath] show ?thesis
        by (simp add: counted_oneColonLine)
    next
      case False
      then show ?thesis by (simp add: counted_oneColonLine)
    qed
  qed
  then show ?thesis
    by (simp add: countedUnder_def oneColonOccurrences_def)
qed

text \<open>
  C2, as the claim states it, fails. With the base path \<open>r\<close>, the output of the two
  lines \<open>r/user/a.txt:x\<close> and \<open>r/user/b.txt:x\<close> has the relative path \<open>user/a.txt\<close>
  on exactly one line, and the code returns the single result \<open>use\<close> with count 2:
  \<open>removeBasePath\<close> takes the piece between the first and the second occurrence
  of \<open>r/\<close>, and \<open>r/\<close> occurs again at the end of \<open>user/\<close>. And the line
  \<open>r/a.txt:x:y\<close>, of the form \<open>path:token\<close> at its first colon with the relative
  path \<open>a.txt\<close>, gives no result, since a line with two colons is not counted.
\<close>

theorem parseGrepOutput_merges_counts_counterexample:
  "spec_occurrences ''r'' ''user/a.txt'' (strings_Split (''r/user/a.txt:x'' @ [CHR 10] @ ''r/user/b.txt:x'') [CHR 10]) = 1
   \<and> parseGrepOutput [] (''r/user/a.txt:x'' @ [CHR 10] @ ''r/user/b.txt:x'') ''r''
       = Inr [\<lparr>FileName = ''use'', Count = 2\<rparr>]
   \<and> spec_occurrences ''r'' ''a.txt'' (strings_Split ''r/a.txt:x:y'' [CHR 10]) = 1
   \<and> parseGrepOutput [] ''r/a.txt:x:y'' ''r'' = Inr []"
  by code_simp

text \<open>
  C2, amended. Count as lines of the form \<open>path:token\<close> the lines with exactly one
  colon and a non-empty part on each side, and let the path of every such line
  start with \<open>basePath/\<close> and not contain \<open>basePath/\<close> again after that. If the
  relative path \<open>P\<close>, the path with its prefix \<open>basePath/\<close> removed, occurs on \<open>k\<close>
  of those lines, \<open>k\<close> at least one, then \<open>parseGrepOutput\<close> returns, in whatever
  order the map is visited, a list with exactly one result for \<open>P\<close>, whose count
  is \<open>k\<close>, and no file name occurs twice in the list. The count is a Go \<open>int\<close>: it
  reads as \<open>k\<close> itself below \<open>2 ^ 63\<close>.
\<close>

theorem parseGrepOutput_merges_counts:
  assumes once: "\<forall>line \<in> set (strings_Split out [CHR 10]). oneColonLine line \<longrightarrow>
      underBasePathOnce basePath (fst (spec_splitAtFirstColon line))"
    and k: "oneColonOccurrences basePath P (strings_Split out [CHR 10]) = k"
    and pos: "0 < k"
  shows "\<exists>results. parseGrepOutput sched out basePath = Inr results
      \<and> filter (\<lambda>r. FileName r = P) results = [\<lparr>FileName = P, Count = word_of_nat k\<rparr>]
      \<and> distinct (map FileName results)
      \<and> (k < 2 ^ 63 \<longrightarrow> sint (word_of_nat k :: go_int) = int k)"
proof -
  have inside: "\<forall>line \<in> set (strings_Split out [CHR 10]).
      counted line \<longrightarrow> relativeName basePath line \<noteq> Inl Panic"
  proof (intro ballI impI)
    fix line
    assume l: "line \<in> set (strings_Split out [CHR 10])" and c: "counted line"
    then have o: "oneColonLine line" by (simp add: counted_oneColonLine)
    with once l have "underBasePathOnce basePath (fst (spec_splitAtFirstColon line))"
      by simp
    from relativeName_under_once [OF o this]
    show "relativeName basePath line \<noteq> Inl Panic" by simp
  qed
  have "countedUnder basePath P (strings_Split out [CHR 10]) = k"
    using countedUnder_oneColonOccurrences [OF once] k by simp
  from parseGrepOutput_one_result_per_name [OF inside this pos]
  show ?thesis .
qed

text \<open>
  The theorem on the input of \<open>TestParseGrepOutput\<close>: three lines name
  \<open>results.json\<close>, and the one result for it has count 3.
\<close>

theorem parseGrepOutput_merges_counts_witness:
  "\<exists>results. parseGrepOutput [2, 0] testInput ''repository-words-grepper'' = Inr results
     \<and> filter (\<lambda>r. FileName r = ''results.json'') results
          = [\<lparr>FileName = ''results.json'', Count = 3\<rparr>]
     \<and> distinct (map FileName results)"
proof -
  have once: "\<forall>line \<in> set (strings_Split testInput [CHR 10]). oneColonLine line \<longrightarrow>
      underBasePathOnce ''repository-words-grepper'' (fst (spec_splitAtFirstColon line))"
    unfolding testInput_lines by code_simp
  have k: "oneColonOccurrences ''repository-words-grepper'' ''results.json''
      (strings_Split testInput [CHR 10]) = 3"
    unfolding testInput_lines by code_simp
  show ?thesis
    using parseGrepOutput_merges_counts [OF once k, of "[2, 0]"] by simp
qed

section \<open>Count mode: lines with the count 0, and counts that are no numbers\<close>




lemma count_zero_lines_excluded_example:
  "parseGrepOutput_count (''r/a.txt:4'' @ [CHR 10] @ ''r/b.txt:0'' @ [CHR 10] @ ''r/c.txt:2'') ''r''
     = ([], Inr [\<lparr>FileName = ''a.txt'', Count = 4\<rparr>, \<lparr>FileName = ''c.txt'', Count = 2\<rparr>])"
  by code_simp

lemma parseCountLines_append:
  "parseCountLines pathGrepped results pre = ([], Inr results') \<Longrightarrow>
     parseCountLines pathGrepped results (pre @ rest) = parseCountLines pathGrepped results' rest"
proof (induction pre arbitrary: results)
  case Nil
  then show ?case by simp
next
  case (Cons res pre)
  from Cons.prems show ?case
    by (auto simp: Let_def Cons.IH split: if_splits sum.splits)
qed

text \<open>
  C9. Take a count-mode output with a line whose path field is not empty and
  whose count field is not empty and is rejected by \<open>strconv.Atoi\<close>, the lines
  before it having been parsed without a panic and without such a rejection
  (\<open>earlier\<close> is what they gave). Then the parser logs the error of \<open>Atoi\<close> and
  returns no result at all, \<open>earlier\<close> included, and \<open>grep\<close> returns that empty
  result with no error.
\<close>

theorem count_nonnumeric_aborts:
  assumes lines: "strings_Split out [CHR 10] = pre @ res # post"
    and before: "parseCountLines pathGrepped [] pre = ([], Inr earlier)"
    and fields: "strings_Split res '':'' = name # cnt # others"
    and name: "name \<noteq> ''''" and cnt: "cnt \<noteq> ''''"
    and rejected: "Atoi cnt = Inl err"
    and ran: "execCmd w (grepCommand ''--count'' pathGrepped searchWords excludeDirs) = Finished out"
  shows "parseGrepOutput_count out pathGrepped = ([LogAtoiError err], Inr [])
    \<and> snd (grep_count w pathGrepped searchWords excludeDirs) = Inr []"
proof -
  have zero: "cnt \<noteq> ''0''"
    using rejected by (auto simp: Atoi_def isDigit_def digitsValue_def)
  have step: "parseCountLines pathGrepped earlier (res # post) = ([LogAtoiError err], Inr [])"
    using fields name cnt zero rejected by (simp add: Let_def isNoMatches_def)
  have p: "parseGrepOutput_count out pathGrepped = ([LogAtoiError err], Inr [])"
    unfolding parseGrepOutput_count_def lines
    using parseCountLines_append [OF before, of "res # post"] step by simp
  show ?thesis
    using p ran by (simp add: grep_count_def Let_def)
qed

theorem count_nonnumeric_aborts_witness:
  "parseGrepOutput_count (''r/a.txt:3'' @ [CHR 10] @ ''r/b.txt:x'' @ [CHR 10] @ ''r/c.txt:12'') ''r''
     = ([LogAtoiError (ErrSyntax ''x'')], Inr [])
   \<and> snd (grep_count
        (worldOf ''r'' (Finished '''')
           (Finished (''r/a.txt:3'' @ [CHR 10] @ ''r/b.txt:x'' @ [CHR 10] @ ''r/c.txt:12'')))
        ''r'' [''fell''] []) = Inr []"
proof -
  let ?out = "''r/a.txt:3'' @ [CHR 10] @ ''r/b.txt:x'' @ [CHR 10] @ ''r/c.txt:12''"
  have lines: "strings_Split ?out [CHR 10] = [''r/a.txt:3''] @ ''r/b.txt:x'' # [''r/c.txt:12'']"
    by code_simp
  have before: "parseCountLines ''r'' [] [''r/a.txt:3'']
      = ([], Inr [\<lparr>FileName = ''a.txt'', Count = 3\<rparr>])"
    by code_simp
  have fields: "strings_Split ''r/b.txt:x'' '':'' = ''r/b.txt'' # ''x'' # []"
    by code_simp
  have rejected: "Atoi ''x'' = Inl (ErrSyntax ''x'')"
    by code_simp
  have ran: "execCmd (worldOf ''r'' (Finished '''') (Finished ?out))
      (grepCommand ''--count'' ''r'' [''fell''] []) = Finished ?out"
    by (simp add: worldOf_def grepCommand_def)
  show ?thesis
    using count_nonnumeric_aborts [OF lines before fields _ _ rejected ran] by simp
qed

section \<open>The search command's exit status\<close>

text \<open>
  C5. When the \<open>grep\<close> command ends with an exit error, \<open>grep\<close> returns the empty
  result and no error for the code 1, and for every other code an error that
  carries the command's standard error text.
\<close>

theorem grep_exit_status:
  "execCmd w (grepCommand ''--only-matching'' path searchWords excludeDirs) = ExitError code stderr
   \<Longrightarrow> snd (grep w path searchWords excludeDirs) =
        (if code = 1 then Inr []
         else Inl (Err (''unable to execute grep command: '' @ stderr)))"
  by (simp add: grep_def GrepErrorCodeNoMatches_def Let_def)

theorem grep_exit_status_witness:
  "snd (grep (worldOf ''/tmp/clone1'' (Finished '''') (ExitError 2 ''grep: bad regex'')) ''/tmp/clone1'' [''fell''] [])
     = Inl (Err ''unable to execute grep command: grep: bad regex'')
   \<and> snd (grep (worldOf ''/tmp/clone1'' (Finished '''') (ExitError 1 '''')) ''/tmp/clone1'' [''fell''] [])
     = Inr []"
proof -
  have h2: "execCmd (worldOf ''/tmp/clone1'' (Finished '''') (ExitError 2 ''grep: bad regex''))
      (grepCommand ''--only-matching'' ''/tmp/clone1'' [''fell''] []) = ExitError 2 ''grep: bad regex''"
    by (simp add: worldOf_def grepCommand_def)
  have h1: "execCmd (worldOf ''/tmp/clone1'' (Finished '''') (ExitError 1 ''''))
      (grepCommand ''--only-matching'' ''/tmp/clone1'' [''fell''] []) = ExitError 1 ''''"
    by (simp add: worldOf_def grepCommand_def)
  show ?thesis
    using grep_exit_status [OF h2] grep_exit_status [OF h1] by simp
qed

section \<open>The temporary directory\<close>

text \<open>
  C8. When \<open>ioutil.TempDir\<close> gives a directory and \<open>git clone\<close> succeeds,
  \<open>analyzeRepo\<close> runs \<open>grep\<close> and then removes the directory, whatever \<open>grep\<close>
  gave: a result, an error or a panic; its own result is that of \<open>grep\<close>. When
  \<open>ioutil.TempDir\<close> fails, \<open>analyzeRepo\<close> returns that error and runs no command.
  When \<open>git clone\<close> fails, the directory is removed, no search runs and the process
  ends in \<open>log.Fatal\<close>.
\<close>

theorem analyzeRepo_releases:
  "(tempDir w = Inr dir \<and> execCmd w [''git'', ''clone'', Url r, dir] = Finished out \<longrightarrow>
      analyzeRepo w r searchWords excludeDirs =
        ([MkTempDir, LogRunning [''git'', ''clone'', Url r, dir], Exec [''git'', ''clone'', Url r, dir]]
           @ fst (grep w dir searchWords excludeDirs) @ removeDir w dir,
         snd (grep w dir searchWords excludeDirs))
      \<and> hd (removeDir w dir) = RemoveAll dir)
   \<and> (tempDir w = Inl msg \<longrightarrow>
      analyzeRepo w r searchWords excludeDirs = ([MkTempDir], Inl (Err msg)))
   \<and> (tempDir w = Inr dir \<and> (\<forall>out. execCmd w [''git'', ''clone'', Url r, dir] \<noteq> Finished out) \<longrightarrow>
      analyzeRepo w r searchWords excludeDirs =
        ([MkTempDir, LogRunning [''git'', ''clone'', Url r, dir], Exec [''git'', ''clone'', Url r, dir]]
           @ removeDir w dir,
         Inl (Fatal (''unable to git clone '' @ Name r))))"
proof (intro conjI impI)
  assume a: "tempDir w = Inr dir \<and> execCmd w [''git'', ''clone'', Url r, dir] = Finished out"
  then have c: "cloneRepo w r =
      ([MkTempDir, LogRunning [''git'', ''clone'', Url r, dir], Exec [''git'', ''clone'', Url r, dir]],
       Inr (dir, Some dir))"
    by (simp add: cloneRepo_def Let_def)
  show "analyzeRepo w r searchWords excludeDirs =
        ([MkTempDir, LogRunning [''git'', ''clone'', Url r, dir], Exec [''git'', ''clone'', Url r, dir]]
           @ fst (grep w dir searchWords excludeDirs) @ removeDir w dir,
         snd (grep w dir searchWords excludeDirs))"
    by (cases "grep w dir searchWords excludeDirs")
       (simp add: analyzeRepo_def analyzeRepoWith_def c split: sum.splits)
  show "hd (removeDir w dir) = RemoveAll dir"
    by (simp add: removeDir_def)
next
  assume "tempDir w = Inl msg"
  then show "analyzeRepo w r searchWords excludeDirs = ([MkTempDir], Inl (Err msg))"
    by (simp add: analyzeRepo_def analyzeRepoWith_def cloneRepo_def)
next
  assume a: "tempDir w = Inr dir \<and> (\<forall>out. execCmd w [''git'', ''clone'', Url r, dir] \<noteq> Finished out)"
  then have "cloneRepo w r =
      ([MkTempDir, LogRunning [''git'', ''clone'', Url r, dir], Exec [''git'', ''clone'', Url r, dir]]
         @ removeDir w dir,
       Inl (Fatal (''unable to git clone '' @ Name r)))"
    by (cases "execCmd w [''git'', ''clone'', Url r, dir]") (simp_all add: cloneRepo_def Let_def)
  then show "analyzeRepo w r searchWords excludeDirs =
        ([MkTempDir, LogRunning [''git'', ''clone'', Url r, dir], Exec [''git'', ''clone'', Url r, dir]]
           @ removeDir w dir,
         Inl (Fatal (''unable to git clone '' @ Name r)))"
    by (simp add: analyzeRepo_def analyzeRepoWith_def)
qed

theorem analyzeRepo_releases_witness:
  "analyzeRepo (worldOf ''/tmp/clone1'' (Finished '''') (ExitError 2 ''bad''))
       \<lparr>Name = ''one'', Url = ''u1'', RepoExcludeDirs = []\<rparr> [''fell''] []
     = ([MkTempDir,
         LogRunning [''git'', ''clone'', ''u1'', ''/tmp/clone1''],
         Exec [''git'', ''clone'', ''u1'', ''/tmp/clone1''],
         LogRunning [''grep'', ''--regexp=fell'', ''--recursive'', ''--ignore-case'',
                     ''--only-matching'', ''/tmp/clone1''],
         Exec [''grep'', ''--regexp=fell'', ''--recursive'', ''--ignore-case'',
               ''--only-matching'', ''/tmp/clone1''],
         RemoveAll ''/tmp/clone1''],
        Inl (Err ''unable to execute grep command: bad''))
   \<and> analyzeRepo ((worldOf ''/tmp/clone1'' (Finished '''') (Finished ''''))\<lparr>tempDir := Inl ''no space''\<rparr>)
       \<lparr>Name = ''one'', Url = ''u1'', RepoExcludeDirs = []\<rparr> [''fell''] []
     = ([MkTempDir], Inl (Err ''no space''))
   \<and> analyzeRepo (worldOf ''/tmp/clone1'' (ExitError 128 ''fatal'') (Finished ''''))
       \<lparr>Name = ''one'', Url = ''u1'', RepoExcludeDirs = []\<rparr> [''fell''] []
     = ([MkTempDir,
         LogRunning [''git'', ''clone'', ''u1'', ''/tmp/clone1''],
         Exec [''git'', ''clone'', ''u1'', ''/tmp/clone1''],
         RemoveAll ''/tmp/clone1''],
        Inl (Fatal ''unable to git clone one''))"
proof -
  let ?r = "\<lparr>Name = ''one'', Url = ''u1'', RepoExcludeDirs = []\<rparr>"
  let ?w1 = "worldOf ''/tmp/clone1'' (Finished '''') (ExitError 2 ''bad'')"
  let ?w2 = "(worldOf ''/tmp/clone1'' (Finished '''') (Finished ''''))\<lparr>tempDir := Inl ''no space''\<rparr>"
  let ?w3 = "worldOf ''/tmp/clone1'' (ExitError 128 ''fatal'') (Finished '''')"
  have h1: "tempDir ?w1 = Inr ''/tmp/clone1''
      \<and> execCmd ?w1 [''git'', ''clone'', Url ?r, ''/tmp/clone1''] = Finished ''''"
    by (simp add: worldOf_def)
  have h2: "tempDir ?w2 = Inl ''no space''"
    by (simp add: worldOf_def)
  have h3: "tempDir ?w3 = Inr ''/tmp/clone1''
      \<and> (\<forall>out. execCmd ?w3 [''git'', ''clone'', Url ?r, ''/tmp/clone1''] \<noteq> Finished out)"
    by (simp add: worldOf_def)
  have g: "grep ?w1 ''/tmp/clone1'' [''fell''] []
      = ([LogRunning [''grep'', ''--regexp=fell'', ''--recursive'', ''--ignore-case'',
                      ''--only-matching'', ''/tmp/clone1''],
          Exec [''grep'', ''--regexp=fell'', ''--recursive'', ''--ignore-case'',
                ''--only-matching'', ''/tmp/clone1'']],
         Inl (Err ''unable to execute grep command: bad''))"
    by (simp add: grep_def grepCommand_def grepExcludeDirStr_def searchWordsStr_def worldOf_def
        GrepErrorCodeNoMatches_def Let_def)
  have rm: "removeDir ?w1 ''/tmp/clone1'' = [RemoveAll ''/tmp/clone1'']"
      "removeDir ?w3 ''/tmp/clone1'' = [RemoveAll ''/tmp/clone1'']"
    by (simp_all add: removeDir_def worldOf_def)
  have a1: "analyzeRepo ?w1 ?r [''fell''] [] =
      ([MkTempDir, LogRunning [''git'', ''clone'', Url ?r, ''/tmp/clone1''],
        Exec [''git'', ''clone'', Url ?r, ''/tmp/clone1'']]
         @ fst (grep ?w1 ''/tmp/clone1'' [''fell''] []) @ removeDir ?w1 ''/tmp/clone1'',
       snd (grep ?w1 ''/tmp/clone1'' [''fell''] []))"
    by (rule conjunct1 [OF mp [OF conjunct1 [OF analyzeRepo_releases] h1]])
  have a2: "analyzeRepo ?w2 ?r [''fell''] [] = ([MkTempDir], Inl (Err ''no space''))"
    by (rule mp [OF conjunct1 [OF conjunct2 [OF analyzeRepo_releases]] h2])
  have a3: "analyzeRepo ?w3 ?r [''fell''] [] =
      ([MkTempDir, LogRunning [''git'', ''clone'', Url ?r, ''/tmp/clone1''],
        Exec [''git'', ''clone'', Url ?r, ''/tmp/clone1'']] @ removeDir ?w3 ''/tmp/clone1'',
       Inl (Fatal (''unable to git clone '' @ Name ?r)))"
    by (rule mp [OF conjunct2 [OF conjunct2 [OF analyzeRepo_releases]] h3])
  show ?thesis
    unfolding a1 a2 a3 g rm by simp
qed

section \<open>The report: totals and ranking\<close>

lemma foldl_plus_sum_list:
  "foldl (\<lambda>result x. result + f x) (a :: go_int) xs = a + sum_list (map f xs)"
  by (induction xs arbitrary: a) (simp_all add: add.assoc)

lemma sumTotalCountForGrepResults_sum:
  "sumTotalCountForGrepResults grs = sum_list (map Count grs)"
  by (simp add: sumTotalCountForGrepResults_def foldl_plus_sum_list)

lemma calculateTotalCountSum_sum:
  "calculateTotalCountSum rf = sum_list (map CountSum (Applications rf))"
  by (simp add: calculateTotalCountSum_def foldl_plus_sum_list)

lemma fillSlots_succeeds:
  "\<forall>i \<in> set indices. \<exists>r. analysis i = Inr r \<Longrightarrow>
     fillSlots analysis repos apps indices =
       Inr (foldl (\<lambda>a i. a[i := filledSlot analysis repos i]) apps indices)"
proof (induction indices arbitrary: apps)
  case Nil
  show ?case by simp
next
  case (Cons i indices)
  from Cons.prems obtain r where r: "analysis i = Inr r" by auto
  from Cons.prems have "\<forall>i \<in> set indices. \<exists>r. analysis i = Inr r" by simp
  from Cons.IH [OF this] r show ?case
    by (simp add: filledSlot_def)
qed

lemma fillSlots_returns_only_on_success:
  "fillSlots analysis repos apps indices = Inr apps' \<Longrightarrow>
     \<forall>i \<in> set indices. \<exists>r. analysis i = Inr r"
proof (induction indices arbitrary: apps)
  case Nil
  show ?case by simp
next
  case (Cons i indices)
  from Cons.prems obtain r where r: "analysis i = Inr r"
    by (cases "analysis i") (auto split: error.splits)
  with Cons.prems have "fillSlots analysis repos
      (apps[i := \<lparr>AppName = Name (repos ! i), CountSum = sumTotalCountForGrepResults r,
                  GrepResults = r\<rparr>]) indices = Inr apps'"
    by simp
  from Cons.IH [OF this] r show ?case by simp
qed

lemma foldl_update_nth:
  "j < length apps \<Longrightarrow>
     foldl (\<lambda>a i. a[i := f i]) apps indices ! j = (if j \<in> set indices then f j else apps ! j)"
  by (induction indices arbitrary: apps) (auto simp: nth_list_update)

lemma length_foldl_update:
  "length (foldl (\<lambda>a i. a[i := f i]) apps indices) = length apps"
  by (induction indices arbitrary: apps) auto

lemma foldl_update_all:
  "set indices = {0..<n} \<Longrightarrow> length apps = n \<Longrightarrow>
     foldl (\<lambda>a i. a[i := f i]) apps indices = map f [0..<n]"
  by (rule nth_equalityI) (simp_all add: length_foldl_update foldl_update_nth)

lemma set_completionOrder: "set (completionOrder sched n) = {0..<n}"
proof -
  have "mset (completionOrder sched n) = mset [0..<n]"
    by (simp add: completionOrder_def mset_rangeOrder)
  then have "set (completionOrder sched n) = set [0..<n]"
    by (rule mset_eq_setD)
  then show ?thesis by simp
qed

lemma gatherResults_returns:
  assumes "gatherResults analyze sched worlds cfg = Inr results"
  shows "Applications results =
      map (filledSlot
             (\<lambda>index. snd (analyze (worlds index) (Repositories cfg ! index) (SearchWords cfg)
                (ExcludeDirs cfg @ RepoExcludeDirs (Repositories cfg ! index))))
             (Repositories cfg))
          [0..<length (Repositories cfg)]"
    and "TotalCountSum results = sum_list (map CountSum (Applications results))"
    and "\<forall>index < length (Repositories cfg). \<exists>r.
           snd (analyze (worlds index) (Repositories cfg ! index) (SearchWords cfg)
                (ExcludeDirs cfg @ RepoExcludeDirs (Repositories cfg ! index))) = Inr r"
proof -
  let ?n = "length (Repositories cfg)"
  let ?an = "\<lambda>index. snd (analyze (worlds index) (Repositories cfg ! index) (SearchWords cfg)
                (ExcludeDirs cfg @ RepoExcludeDirs (Repositories cfg ! index)))"
  from assms obtain apps where
    f: "fillSlots ?an (Repositories cfg) (replicate ?n zeroApplication) (completionOrder sched ?n)
          = Inr apps"
    and r: "results = \<lparr>TotalApplications = word_of_nat ?n, ResultSearchWords = SearchWords cfg,
          TotalCountSum = 0, Applications = apps\<rparr>
            \<lparr>TotalCountSum := calculateTotalCountSum
               \<lparr>TotalApplications = word_of_nat ?n, ResultSearchWords = SearchWords cfg,
                TotalCountSum = 0, Applications = apps\<rparr>\<rparr>"
    by (auto simp: gatherResults_def Let_def split: sum.splits)
  from fillSlots_returns_only_on_success [OF f]
  have ok: "\<forall>i \<in> set (completionOrder sched ?n). \<exists>r. ?an i = Inr r" .
  then show "\<forall>index < ?n. \<exists>r. ?an index = Inr r"
    by (simp add: set_completionOrder)
  from fillSlots_succeeds [OF ok, of "Repositories cfg" "replicate ?n zeroApplication"] f
  have "apps = foldl (\<lambda>a i. a[i := filledSlot ?an (Repositories cfg) i])
      (replicate ?n zeroApplication) (completionOrder sched ?n)"
    by simp
  also have "\<dots> = map (filledSlot ?an (Repositories cfg)) [0..<?n]"
    by (rule foldl_update_all) (simp_all add: set_completionOrder)
  finally have apps: "apps = map (filledSlot ?an (Repositories cfg)) [0..<?n]" .
  show "Applications results = map (filledSlot ?an (Repositories cfg)) [0..<?n]"
    by (simp add: r apps)
  show "TotalCountSum results = sum_list (map CountSum (Applications results))"
    by (simp add: r calculateTotalCountSum_sum)
qed



text \<open>Insertion sort meets the contract of \<open>sort.Slice\<close>; the order on \<open>CountSum\<close> is a strict weak ordering.\<close>

lemma set_insertBy: "set (insertBy lessFn x ys) = insert x (set ys)"
  by (induction ys) auto

lemma mset_insertBy: "mset (insertBy lessFn x ys) = add_mset x (mset ys)"
  by (induction ys) auto

lemma mset_insertionSort: "mset (insertionSort lessFn xs) = mset xs"
  by (induction xs) (auto simp: mset_insertBy)

lemma sorted_insertBy:
  assumes swo: "strictWeakOrdering lessFn"
    and s: "sorted_wrt (\<lambda>a b. \<not> lessFn b a) ys"
  shows "sorted_wrt (\<lambda>a b. \<not> lessFn b a) (insertBy lessFn x ys)"
  using s
proof (induction ys)
  case Nil
  show ?case by simp
next
  case (Cons y ys)
  from swo have asym: "\<And>a b. lessFn a b \<Longrightarrow> \<not> lessFn b a"
    and ntrans: "\<And>a b c. \<not> lessFn a b \<Longrightarrow> \<not> lessFn b c \<Longrightarrow> \<not> lessFn a c"
    unfolding strictWeakOrdering_def by blast+
  show ?case
  proof (cases "lessFn y x")
    case True
    with Cons asym show ?thesis
      by (auto simp: set_insertBy)
  next
    case False
    with Cons ntrans show ?thesis
      by auto
  qed
qed

lemma sorted_insertionSort:
  "strictWeakOrdering lessFn \<Longrightarrow> sorted_wrt (\<lambda>a b. \<not> lessFn b a) (insertionSort lessFn xs)"
  by (induction xs) (simp_all add: sorted_insertBy)

lemma insertionSort_contract: "sortSliceContract insertionSort"
  by (simp add: sortSliceContract_def mset_insertionSort sorted_insertionSort)

lemma countSum_order: "strictWeakOrdering (\<lambda>a b. sint (CountSum a) > sint (CountSum b))"
  by (simp add: strictWeakOrdering_def)

lemma main_go_returns:
  assumes "main_go srt sched worlds cfgFile writeErr = Inr report"
  obtains cfg results where "cfgFile = Inr cfg" and "writeErr = None"
    and "gatherResults analyzeRepo sched worlds cfg = Inr results"
    and "report = sortOnAppCountSumDesc srt results"
  using assms by (auto simp: main_go_def split: sum.splits option.splits)

lemma sortOnAppCountSumDesc_fields:
  "TotalCountSum (sortOnAppCountSumDesc srt results) = TotalCountSum results"
  "Applications (sortOnAppCountSumDesc srt results) =
     srt (\<lambda>a b. sint (CountSum a) > sint (CountSum b)) (Applications results)"
  by (simp_all add: sortOnAppCountSumDesc_def)

lemma contract_mset:
  "sortSliceContract srt \<Longrightarrow>
     mset (srt (\<lambda>a b. sint (CountSum a) > sint (CountSum b)) (apps :: Application list)) = mset apps"
  using countSum_order unfolding sortSliceContract_def by blast


lemma filledSlot_sum:
  "analysis index = Inr r \<Longrightarrow>
     CountSum (filledSlot analysis repos index)
       = sum_list (map Count (GrepResults (filledSlot analysis repos index)))"
  by (simp add: filledSlot_def sumTotalCountForGrepResults_sum)

lemma exampleRun: "main_go insertionSort [1] exampleWorlds (Inr exampleConfig) None = Inr exampleReport"
  by code_simp

text \<open>
  C3. With a \<open>sort.Slice\<close> that meets its contract: every report that \<open>main\<close>
  writes has as \<open>TotalCountSum\<close> the sum of the \<open>CountSum\<close> of its applications, and
  each application has as \<open>CountSum\<close> the sum of the \<open>Count\<close> of its results (sums
  of Go \<open>int\<close>, which wrap around). With no repository configured, \<open>main\<close> writes
  a report with no application and total 0.
\<close>

theorem report_totals:
  assumes contract: "sortSliceContract srt"
  shows "(main_go srt sched worlds cfgFile writeErr = Inr report \<longrightarrow>
            TotalCountSum report = sum_list (map CountSum (Applications report))
            \<and> (\<forall>app \<in> set (Applications report).
                  CountSum app = sum_list (map Count (GrepResults app))))
       \<and> (cfgFile = Inr cfg \<and> Repositories cfg = [] \<and> writeErr = None \<longrightarrow>
            (\<exists>empty. main_go srt sched worlds cfgFile writeErr = Inr empty
               \<and> Applications empty = [] \<and> TotalCountSum empty = 0))"
proof (intro conjI impI)
  assume m: "main_go srt sched worlds cfgFile writeErr = Inr report"
  from m obtain cfg' results where g: "gatherResults analyzeRepo sched worlds cfg' = Inr results"
    and r: "report = sortOnAppCountSumDesc srt results"
    by (rule main_go_returns)
  let ?apps = "Applications results"
  have ms: "mset (Applications report) = mset ?apps"
    by (simp add: r sortOnAppCountSumDesc_fields contract_mset [OF contract])
  then have "mset (map CountSum (Applications report)) = mset (map CountSum ?apps)"
    by simp
  then have "sum_list (map CountSum (Applications report)) = sum_list (map CountSum ?apps)"
    by (metis sum_mset_sum_list)
  then show "TotalCountSum report = sum_list (map CountSum (Applications report))"
    using gatherResults_returns(2) [OF g] by (simp add: r sortOnAppCountSumDesc_fields)
  show "\<forall>app \<in> set (Applications report). CountSum app = sum_list (map Count (GrepResults app))"
  proof
    fix app
    assume "app \<in> set (Applications report)"
    with ms have "app \<in> set ?apps" by (metis set_mset_mset)
    then obtain index where i: "index < length (Repositories cfg')"
      and app: "app = filledSlot
             (\<lambda>index. snd (analyzeRepo (worlds index) (Repositories cfg' ! index) (SearchWords cfg')
                (ExcludeDirs cfg' @ RepoExcludeDirs (Repositories cfg' ! index))))
             (Repositories cfg') index"
      unfolding gatherResults_returns(1) [OF g] by auto
    from gatherResults_returns(3) [OF g] i obtain res where
      "snd (analyzeRepo (worlds index) (Repositories cfg' ! index) (SearchWords cfg')
                (ExcludeDirs cfg' @ RepoExcludeDirs (Repositories cfg' ! index))) = Inr res"
      by auto
    then show "CountSum app = sum_list (map Count (GrepResults app))"
      unfolding app by (rule filledSlot_sum)
  qed
next
  assume e: "cfgFile = Inr cfg \<and> Repositories cfg = [] \<and> writeErr = None"
  have "mset (srt (\<lambda>a b. sint (CountSum a) > sint (CountSum b)) ([] :: Application list)) = mset []"
    by (rule contract_mset [OF contract])
  then have "srt (\<lambda>a b. sint (CountSum a) > sint (CountSum b)) ([] :: Application list) = []"
    by simp
  with e show "\<exists>empty. main_go srt sched worlds cfgFile writeErr = Inr empty
               \<and> Applications empty = [] \<and> TotalCountSum empty = 0"
    by (simp add: main_go_def gatherResults_def completionOrder_def calculateTotalCountSum_def
        sortOnAppCountSumDesc_def Let_def)
qed

theorem report_totals_witness:
  "TotalCountSum exampleReport = 6
   \<and> map CountSum (Applications exampleReport) = [4, 2]
   \<and> map (\<lambda>app. sum_list (map Count (GrepResults app))) (Applications exampleReport) = [4, 2]
   \<and> (\<exists>empty. main_go insertionSort [] exampleWorlds
          (Inr (exampleConfig\<lparr>Repositories := []\<rparr>)) None = Inr empty
        \<and> Applications empty = [] \<and> TotalCountSum empty = 0)"
proof -
  note t = report_totals [OF insertionSort_contract, of "[1]" exampleWorlds "Inr exampleConfig" None
      exampleReport]
  have a: "TotalCountSum exampleReport = sum_list (map CountSum (Applications exampleReport))"
    by (rule conjunct1 [OF mp [OF conjunct1 [OF t] exampleRun]])
  have b: "\<exists>empty. main_go insertionSort [] exampleWorlds
          (Inr (exampleConfig\<lparr>Repositories := []\<rparr>)) None = Inr empty
        \<and> Applications empty = [] \<and> TotalCountSum empty = 0"
    by (rule mp [OF conjunct2 [OF report_totals
          [where cfg = "exampleConfig\<lparr>Repositories := []\<rparr>", OF insertionSort_contract]]])
       simp
  have c: "map CountSum (Applications exampleReport) = [4, 2]"
      "map (\<lambda>app. sum_list (map Count (GrepResults app))) (Applications exampleReport) = [4, 2]"
    by (simp_all add: exampleReport_def)
  from a b c show ?thesis by simp
qed




end
